theory Spec2Isabelle
  imports Complex_Main "HOL-Library.Word" "HOL-Library.Sublist" "HOL-Library.Product_Lexorder"
begin


section \<open>JavaScript strings\<close>

text \<open>
  A JavaScript string is a sequence of UTF-16 code units; \<open>length\<close>, \<open>slice\<close>,
  \<open>lastIndexOf\<close> and \<open>trim\<close> all work on code units. \<open>js\<close> turns an ASCII
  literal into such a string.
\<close>

type_synonym codeunit = "16 word"
type_synonym jsstring = "codeunit list"

definition js :: "string \<Rightarrow> jsstring" where
  "js s = map of_char s"

text \<open>
  \<open>String.prototype.trim\<close> removes the ECMAScript WhiteSpace and LineTerminator code
  points from both ends: TAB, LF, VT, FF, CR, SP, NBSP, U+1680, U+2000 to U+200A, U+2028,
  U+2029, U+202F, U+205F, U+3000 and U+FEFF.
\<close>

definition isWhiteSpace :: "codeunit \<Rightarrow> bool" where
  "isWhiteSpace c = (c \<in> set [9, 10, 11, 12, 13, 32, 160, 5760, 8192, 8193, 8194, 8195, 8196, 8197,
      8198, 8199, 8200, 8201, 8202, 8232, 8233, 8239, 8287, 12288, 65279])"

definition trim :: "jsstring \<Rightarrow> jsstring" where
  "trim s = rev (dropWhile isWhiteSpace (rev (dropWhile isWhiteSpace s)))"

text \<open>\<open>text.slice(start, end)\<close> for non-negative \<open>start\<close> and \<open>end\<close>.\<close>

definition slice :: "jsstring \<Rightarrow> nat \<Rightarrow> nat \<Rightarrow> jsstring" where
  "slice s start end = take (end - start) (drop start s)"

text \<open>
  \<open>text.lastIndexOf(c, fromIndex)\<close> for a one-character search string: the greatest index
  \<open>i \<le> fromIndex\<close> with \<open>text[i] = c\<close>, or \<open>-1\<close>. The position \<open>fromIndex\<close> itself
  is included in the search.
\<close>

fun lastIndexOf :: "jsstring \<Rightarrow> codeunit \<Rightarrow> nat \<Rightarrow> int" where
  "lastIndexOf s c 0 = (if 0 < length s \<and> s ! 0 = c then 0 else - 1)"
| "lastIndexOf s c (Suc i) =
     (if Suc i < length s \<and> s ! Suc i = c then int (Suc i) else lastIndexOf s c i)"

section \<open>\<open>chunkTextForSpeech\<close> (hooks/useSpeechSynthesis.ts)\<close>

text \<open>
  One pass of the loop body up to the computation of \<open>chunkEnd\<close>. The code units 46, 63, 33
  and 32 are the full stop, the question mark, the exclamation mark and the space. The
  source compares \<open>bestBreak > currentIndex + maxChunkSize * 0.5\<close>; on integers that is
  \<open>2 * bestBreak > 2 * currentIndex + maxChunkSize\<close>.
\<close>

definition chunkEndFor :: "jsstring \<Rightarrow> nat \<Rightarrow> nat \<Rightarrow> nat" where
  "chunkEndFor text maxChunkSize currentIndex =
     (let chunkEnd = min (currentIndex + maxChunkSize) (length text)
      in if chunkEnd < length text
         then let sentenceBreak = lastIndexOf text 46 chunkEnd;
                  questionBreak = lastIndexOf text 63 chunkEnd;
                  exclamationBreak = lastIndexOf text 33 chunkEnd;
                  bestBreak = max (max sentenceBreak questionBreak) exclamationBreak
              in if 2 * bestBreak > 2 * int currentIndex + int maxChunkSize
                 then nat (bestBreak + 1)
                 else let wordBreak = lastIndexOf text 32 chunkEnd
                      in if 2 * wordBreak > 2 * int currentIndex + int maxChunkSize
                         then nat wordBreak
                         else chunkEnd
         else chunkEnd)"

text \<open>
  The \<open>while (currentIndex < text.length)\<close> loop. With \<open>maxChunkSize = 0\<close> the index
  does not advance and the loop does not return; not returning is the value \<open>None\<close>.
\<close>

partial_function (option) chunkLoop ::
  "jsstring \<Rightarrow> nat \<Rightarrow> nat \<Rightarrow> jsstring list \<Rightarrow> jsstring list option" where
  "chunkLoop text maxChunkSize currentIndex chunks =
     (if currentIndex < length text
      then let chunkEnd = chunkEndFor text maxChunkSize currentIndex
           in chunkLoop text maxChunkSize chunkEnd
                (chunks @ [trim (slice text currentIndex chunkEnd)])
      else Some chunks)"

declare chunkLoop.simps [code]

definition chunkTextForSpeech :: "jsstring \<Rightarrow> nat \<Rightarrow> jsstring list option" where
  "chunkTextForSpeech text maxChunkSize =
     (if length text \<le> maxChunkSize then Some [text]
      else map_option (filter (\<lambda>chunk. 0 < length chunk)) (chunkLoop text maxChunkSize 0 []))"

section \<open>The speech playback hook (hooks/useSpeechSynthesis.ts)\<close>

text \<open>
  The state of \<open>useSpeechSynthesis\<close>: the two React states \<open>session\<close> and
  \<open>settings\<close>, the refs, and the list of calls made to \<open>window.speechSynthesis\<close>
  (oldest first). \<open>setSession\<close> is always called with an updater function, so the
  updates of one handler apply in program order; the model applies them at once. Every
  \<open>Date.now()\<close> of a handler is the parameter \<open>now\<close>. The engine's callbacks and the
  timers set by the handlers are separate functions, fired by the environment.
\<close>

record SpeechSynthesisVoice =
  voiceName :: jsstring
  voiceLang :: jsstring

record SpeechSettings =
  rate :: rat
  pitch :: rat
  volume :: rat
  voice :: "SpeechSynthesisVoice option"

record ReadingSession =
  content :: jsstring
  currentPosition :: int
  isPlaying :: bool
  isPaused :: bool
  totalCharacters :: int

record SpeechSynthesisUtterance =
  utterText :: jsstring
  utterRate :: rat
  utterPitch :: rat
  utterVolume :: rat
  utterLang :: jsstring
  utterVoice :: "SpeechSynthesisVoice option"

datatype synthCall = Cancel | Pause | Speak SpeechSynthesisUtterance

record hook =
  session :: ReadingSession
  settings :: SpeechSettings
  availableVoices :: "SpeechSynthesisVoice list"
  utteranceRef :: "SpeechSynthesisUtterance option"
  chunksRef :: "jsstring list"
  currentChunkIndexRef :: nat
  accumulatedCharactersRef :: int
  isChunkedPlaybackRef :: bool
  isStoppingRef :: bool
  lastCancelAtRef :: int
  actionLockRef :: bool
  synthCalls :: "synthCall list"

definition initialHook :: hook where
  "initialHook =
     \<lparr>session = \<lparr>content = [], currentPosition = 0, isPlaying = False, isPaused = False,
                  totalCharacters = 0\<rparr>,
      settings = \<lparr>rate = 1, pitch = 1, volume = 1, voice = None\<rparr>,
      availableVoices = [], utteranceRef = None, chunksRef = [], currentChunkIndexRef = 0,
      accumulatedCharactersRef = 0, isChunkedPlaybackRef = False, isStoppingRef = False,
      lastCancelAtRef = 0, actionLockRef = False, synthCalls = []\<rparr>"

text \<open>\<open>content.slice(fromPosition)\<close>; a negative start counts from the end.\<close>

definition sliceFrom :: "jsstring \<Rightarrow> int \<Rightarrow> jsstring" where
  "sliceFrom s start =
     (if start < 0 then drop (nat (int (length s) + start)) s else drop (nat start) s)"

text \<open>
  \<open>speakNextChunk\<close>: when the cursor has passed the chunk list the session goes idle at
  \<open>totalCharacters\<close>; otherwise an utterance for the current chunk is built from the
  settings and handed to \<open>speechSynthesis.speak\<close>.
\<close>

definition speakNextChunk :: "hook \<Rightarrow> hook" where
  "speakNextChunk h =
     (if currentChunkIndexRef h \<ge> length (chunksRef h)
      then h\<lparr>session := (session h)\<lparr>isPlaying := False, isPaused := False,
                    currentPosition := totalCharacters (session h)\<rparr>,
             isChunkedPlaybackRef := False\<rparr>
      else let chunk = chunksRef h ! currentChunkIndexRef h;
               utterance = \<lparr>utterText = chunk,
                             utterRate = rate (settings h),
                             utterPitch = pitch (settings h),
                             utterVolume = volume (settings h),
                             utterLang = (case voice (settings h) of
                                            None \<Rightarrow> [] | Some v \<Rightarrow> voiceLang v),
                             utterVoice = voice (settings h)\<rparr>
           in h\<lparr>utteranceRef := Some utterance,
                 synthCalls := synthCalls h @ [Speak utterance]\<rparr>)"

text \<open>
  The utterance callbacks. \<open>onend\<close> closes over the chunk of its own utterance; the
  50 ms timer it sets is \<open>chunkTimer\<close>. The timer calls the \<open>speakNextChunk\<close> of the
  render that created the utterance; the model reads the settings of the current state.
\<close>

datatype boundaryName = WordBoundary | SentenceBoundary

definition onboundary :: "boundaryName \<Rightarrow> nat \<Rightarrow> hook \<Rightarrow> hook" where
  "onboundary name charIndex h =
     (if name = WordBoundary
      then h\<lparr>session := (session h)\<lparr>currentPosition :=
                    accumulatedCharactersRef h + int charIndex\<rparr>\<rparr>
      else h)"

definition onend :: "jsstring \<Rightarrow> hook \<Rightarrow> hook" where
  "onend chunk h =
     h\<lparr>accumulatedCharactersRef := accumulatedCharactersRef h + int (length chunk),
       currentChunkIndexRef := currentChunkIndexRef h + 1\<rparr>"

definition chunkTimer :: "hook \<Rightarrow> hook" where
  "chunkTimer h = (if isChunkedPlaybackRef h then speakNextChunk h else h)"

definition onerror :: "jsstring \<Rightarrow> int \<Rightarrow> hook \<Rightarrow> hook" where
  "onerror error now h =
     (let recentlyCanceled = (now - lastCancelAtRef h < 1000)
      in if error = js ''interrupted'' \<and> (isStoppingRef h \<or> recentlyCanceled)
         then h\<lparr>isChunkedPlaybackRef := False\<rparr>
         else let h1 = h\<lparr>isChunkedPlaybackRef := False\<rparr>
              in if \<not> isStoppingRef h \<and> \<not> recentlyCanceled
                 then h1\<lparr>session := (session h1)\<lparr>isPlaying := False, isPaused := False\<rparr>\<rparr>
                 else h1)"

text \<open>
  \<open>startReading\<close> returns at once on the empty string. \<open>chunkTextForSpeech\<close> is called
  with its default \<open>maxChunkSize\<close> of 32000.
\<close>

definition startReading :: "jsstring \<Rightarrow> int \<Rightarrow> int \<Rightarrow> hook \<Rightarrow> hook option" where
  "startReading content' fromPosition now h =
     (if content' = [] then Some h
      else let h1 = h\<lparr>isStoppingRef := False, lastCancelAtRef := now,
                       synthCalls := synthCalls h @ [Cancel],
                       isChunkedPlaybackRef := False\<rparr>;
               textToRead = sliceFrom content' fromPosition
           in case chunkTextForSpeech textToRead 32000 of
                None \<Rightarrow> None
              | Some chunks \<Rightarrow>
                  Some (speakNextChunk
                    (h1\<lparr>chunksRef := chunks, currentChunkIndexRef := 0,
                        accumulatedCharactersRef := fromPosition,
                        isChunkedPlaybackRef := True,
                        session := (session h1)\<lparr>content := content', isPlaying := True,
                           isPaused := False, totalCharacters := int (length content'),
                           currentPosition := fromPosition\<rparr>\<rparr>)))"

text \<open>
  \<open>pauseReading\<close> and its 120 ms fallback timer, which reads
  \<open>speechSynthesis.paused\<close> and \<open>speechSynthesis.speaking\<close> from the engine.
\<close>

definition pauseReading :: "hook \<Rightarrow> hook" where
  "pauseReading h =
     (if actionLockRef h then h
      else h\<lparr>actionLockRef := True, synthCalls := synthCalls h @ [Pause],
             isChunkedPlaybackRef := False,
             session := (session h)\<lparr>isPlaying := False, isPaused := True\<rparr>\<rparr>)"

definition pauseFallbackTimer :: "bool \<Rightarrow> bool \<Rightarrow> int \<Rightarrow> hook \<Rightarrow> hook" where
  "pauseFallbackTimer paused speaking now h =
     (let h1 = (if \<not> paused \<and> speaking
                then h\<lparr>lastCancelAtRef := now, synthCalls := synthCalls h @ [Cancel],
                       isStoppingRef := False\<rparr>
                else h)
      in h1\<lparr>actionLockRef := False\<rparr>)"

definition resumeReading :: "int \<Rightarrow> hook \<Rightarrow> hook option" where
  "resumeReading now h =
     (if isPaused (session h) \<and> length (chunksRef h) > 0
      then if actionLockRef h then Some h
           else let fromPosition = currentPosition (session h);
                    content' = content (session h);
                    h1 = h\<lparr>actionLockRef := True, lastCancelAtRef := now,
                           synthCalls := synthCalls h @ [Cancel],
                           isStoppingRef := False, isChunkedPlaybackRef := False\<rparr>
                in map_option
                     (\<lambda>h2. h2\<lparr>session := (session h2)\<lparr>isPlaying := True, isPaused := False\<rparr>\<rparr>)
                     (startReading content' fromPosition now h1)
      else Some h)"

definition resumeUnlockTimer :: "hook \<Rightarrow> hook" where
  "resumeUnlockTimer h = h\<lparr>actionLockRef := False\<rparr>"

definition stopReading :: "int \<Rightarrow> hook \<Rightarrow> hook" where
  "stopReading now h =
     h\<lparr>isStoppingRef := True, lastCancelAtRef := now,
       synthCalls := synthCalls h @ [Cancel],
       isChunkedPlaybackRef := False, chunksRef := [], currentChunkIndexRef := 0,
       accumulatedCharactersRef := 0,
       session := (session h)\<lparr>isPlaying := False, isPaused := False, currentPosition := 0\<rparr>\<rparr>"

definition stopResetTimer :: "hook \<Rightarrow> hook" where
  "stopResetTimer h = h\<lparr>isStoppingRef := False\<rparr>"

text \<open>
  \<open>updateSettings\<close> takes a partial settings object: each key may be absent
  (\<open>None\<close>); \<open>newVoice = Some None\<close> is the key \<open>voice\<close> present with the value
  \<open>undefined\<close>, as the voice selector's "Default" option passes it.
\<close>

record SettingsPatch =
  newRate :: "rat option"
  newPitch :: "rat option"
  newVolume :: "rat option"
  newVoice :: "SpeechSynthesisVoice option option"

definition mergeSettings :: "SpeechSettings \<Rightarrow> SettingsPatch \<Rightarrow> SpeechSettings" where
  "mergeSettings prev p =
     \<lparr>rate = (case newRate p of None \<Rightarrow> rate prev | Some r \<Rightarrow> r),
      pitch = (case newPitch p of None \<Rightarrow> pitch prev | Some r \<Rightarrow> r),
      volume = (case newVolume p of None \<Rightarrow> volume prev | Some r \<Rightarrow> r),
      voice = (case newVoice p of None \<Rightarrow> voice prev | Some v \<Rightarrow> v)\<rparr>"

text \<open>
  The effect with dependencies \<open>[settings.voice, settings.rate, settings.pitch,
  settings.volume]\<close>.
\<close>

definition settingsEffect :: "int \<Rightarrow> hook \<Rightarrow> hook option" where
  "settingsEffect now h =
     (if isPlaying (session h) \<and> \<not> isPaused (session h)
      then let fromPosition = currentPosition (session h);
               content' = content (session h);
               h1 = h\<lparr>lastCancelAtRef := now, synthCalls := synthCalls h @ [Cancel],
                      isStoppingRef := False, isChunkedPlaybackRef := False\<rparr>
           in startReading content' fromPosition now h1
      else Some h)"

text \<open>
  The voice-loading effect has the dependency \<open>[settings.voice]\<close>: it stores
  \<open>speechSynthesis.getVoices()\<close> and, when no voice is selected, selects the first voice
  whose language starts with \<open>en\<close>.
\<close>

definition startsWith :: "jsstring \<Rightarrow> jsstring \<Rightarrow> bool" where
  "startsWith s p = (take (length p) s = p)"

definition englishVoice :: "SpeechSynthesisVoice list \<Rightarrow> SpeechSynthesisVoice option" where
  "englishVoice voices = find (\<lambda>v. startsWith (voiceLang v) (js ''en'')) voices"

text \<open>
  React compares the dependencies of an effect with \<open>Object.is\<close>: numbers by value, a
  voice object by identity. The model compares voices by value, so a new voice object equal
  to the selected one counts as no change here.
\<close>

definition settingsDepsChanged :: "SpeechSettings \<Rightarrow> SpeechSettings \<Rightarrow> bool" where
  "settingsDepsChanged prev cur =
     (voice prev \<noteq> voice cur \<or> rate prev \<noteq> rate cur \<or> pitch prev \<noteq> pitch cur
      \<or> volume prev \<noteq> volume cur)"

text \<open>
  The render after \<open>setSettings\<close>: React runs, in the order of their declaration, the
  effects whose dependencies changed from \<open>prev\<close>. Both effects see the settings of this
  render; the \<open>setSettings\<close> of the voice-loading effect takes effect in a second render,
  where the voice has changed again and the settings effect runs again.
\<close>

definition commitSettings ::
  "SpeechSettings \<Rightarrow> SpeechSynthesisVoice list \<Rightarrow> int \<Rightarrow> hook \<Rightarrow> hook option" where
  "commitSettings prev voices now h =
     (let cur = settings h;
          voiceChanged = (voice prev \<noteq> voice cur);
          hA = (if voiceChanged then h\<lparr>availableVoices := voices\<rparr> else h);
          pending = (if voiceChanged \<and> voice cur = None then englishVoice voices else None)
      in case (if settingsDepsChanged prev cur then settingsEffect now hA else Some hA) of
           None \<Rightarrow> None
         | Some hB \<Rightarrow>
             (case pending of
                None \<Rightarrow> Some hB
              | Some v \<Rightarrow> settingsEffect now (hB\<lparr>settings := cur\<lparr>voice := Some v\<rparr>\<rparr>)))"

definition updateSettings ::
  "SettingsPatch \<Rightarrow> SpeechSynthesisVoice list \<Rightarrow> int \<Rightarrow> hook \<Rightarrow> hook option" where
  "updateSettings newSettings voices now h =
     commitSettings (settings h) voices now
       (h\<lparr>settings := mergeSettings (settings h) newSettings\<rparr>)"

text \<open>
  Uninterrupted playback: for each utterance the engine delivers word-boundary events with
  the given \<open>charIndex\<close> values, then \<open>end\<close>, then the timer fires. The result lists
  the value of \<open>currentPosition\<close> after every event.
\<close>

fun playUtterance :: "nat list \<Rightarrow> hook \<Rightarrow> int list \<times> hook" where
  "playUtterance [] h = ([], h)"
| "playUtterance (charIndex # rest) h =
     (let h1 = onboundary WordBoundary charIndex h;
          (ps, h2) = playUtterance rest h1
      in (currentPosition (session h1) # ps, h2))"

fun playback :: "nat list list \<Rightarrow> hook \<Rightarrow> int list \<times> hook" where
  "playback [] h = ([], h)"
| "playback (charIndices # rest) h =
     (if \<not> isChunkedPlaybackRef h then ([], h)
      else case utteranceRef h of
             None \<Rightarrow> ([], h)
           | Some u \<Rightarrow>
               (let (ps, h1) = playUtterance charIndices h;
                    h2 = chunkTimer (onend (utterText u) h1);
                    (qs, h3) = playback rest h2
                in (ps @ currentPosition (session h2) # qs, h3)))"

text \<open>Everything that can happen to the hook, as one step function.\<close>

datatype engineEvent =
    StartReading jsstring int
  | PauseReading
  | PauseFallbackTimer bool bool
  | ResumeReading
  | ResumeUnlockTimer
  | StopReading
  | StopResetTimer
  | UpdateSettings SettingsPatch "SpeechSynthesisVoice list"
  | Boundary boundaryName nat
  | End jsstring
  | ChunkTimer
  | ErrorEvent jsstring

fun step :: "engineEvent \<Rightarrow> int \<Rightarrow> hook \<Rightarrow> hook option" where
  "step (StartReading content' fromPosition) now h = startReading content' fromPosition now h"
| "step PauseReading now h = Some (pauseReading h)"
| "step (PauseFallbackTimer paused speaking) now h = Some (pauseFallbackTimer paused speaking now h)"
| "step ResumeReading now h = resumeReading now h"
| "step ResumeUnlockTimer now h = Some (resumeUnlockTimer h)"
| "step StopReading now h = Some (stopReading now h)"
| "step StopResetTimer now h = Some (stopResetTimer h)"
| "step (UpdateSettings newSettings voices) now h = updateSettings newSettings voices now h"
| "step (Boundary name charIndex) now h = Some (onboundary name charIndex h)"
| "step (End chunk) now h = Some (onend chunk h)"
| "step ChunkTimer now h = Some (chunkTimer h)"
| "step (ErrorEvent error) now h = Some (onerror error now h)"

fun run :: "(engineEvent \<times> int) list \<Rightarrow> hook \<Rightarrow> hook option" where
  "run [] h = Some h"
| "run ((event, now) # rest) h = (case step event now h of None \<Rightarrow> None | Some h' \<Rightarrow> run rest h')"

definition flagsExclusive :: "hook \<Rightarrow> bool" where
  "flagsExclusive h = (\<not> (isPlaying (session h) \<and> isPaused (session h)))"

definition boundaryScriptOk :: "nat list list \<Rightarrow> jsstring list \<Rightarrow> bool" where
  "boundaryScriptOk script chunks =
     list_all2 (\<lambda>charIndices chunk. sorted charIndices \<and> (\<forall>i \<in> set charIndices. i \<le> length chunk))
       script chunks"

definition observedPositions :: "nat list list \<Rightarrow> hook \<Rightarrow> int list" where
  "observedPositions script h = currentPosition (session h) # fst (playback script h)"

text \<open>
  The hook in the middle of chunked playback: the utterance of the current chunk is in
  flight, the position has not passed the accumulated count, and the chunks still to come
  fit below \<open>totalCharacters\<close>.
\<close>

definition midPlayback :: "hook \<Rightarrow> bool" where
  "midPlayback h =
     (isChunkedPlaybackRef h
      \<and> currentChunkIndexRef h < length (chunksRef h)
      \<and> (case utteranceRef h of
            None \<Rightarrow> False
          | Some u \<Rightarrow> utterText u = chunksRef h ! currentChunkIndexRef h)
      \<and> currentPosition (session h) \<le> accumulatedCharactersRef h
      \<and> accumulatedCharactersRef h
            + int (sum_list (map length (drop (currentChunkIndexRef h) (chunksRef h))))
          \<le> totalCharacters (session h))"

text \<open>Example states and settings changes.\<close>

definition enVoice :: SpeechSynthesisVoice where
  "enVoice = \<lparr>voiceName = js ''English'', voiceLang = js ''en-US''\<rparr>"

definition helloUtterance :: "SpeechSynthesisVoice option \<Rightarrow> SpeechSynthesisUtterance" where
  "helloUtterance v =
     \<lparr>utterText = js ''Hello world'', utterRate = 1, utterPitch = 1, utterVolume = 1,
      utterLang = (case v of None \<Rightarrow> [] | Some v' \<Rightarrow> voiceLang v'), utterVoice = v\<rparr>"

definition playingHook :: hook where
  "playingHook =
     \<lparr>session = \<lparr>content = js ''Hello world'', currentPosition = 0, isPlaying = True,
                  isPaused = False, totalCharacters = 11\<rparr>,
      settings = \<lparr>rate = 1, pitch = 1, volume = 1, voice = Some enVoice\<rparr>,
      availableVoices = [enVoice], utteranceRef = Some (helloUtterance (Some enVoice)),
      chunksRef = [js ''Hello world''], currentChunkIndexRef = 0,
      accumulatedCharactersRef = 0, isChunkedPlaybackRef = True, isStoppingRef = False,
      lastCancelAtRef = 0, actionLockRef = False,
      synthCalls = [Cancel, Speak (helloUtterance (Some enVoice))]\<rparr>"

definition clearVoice :: SettingsPatch where
  "clearVoice = \<lparr>newRate = None, newPitch = None, newVolume = None, newVoice = Some None\<rparr>"

definition doubleRate :: SettingsPatch where
  "doubleRate = \<lparr>newRate = Some 2, newPitch = None, newVolume = None, newVoice = None\<rparr>"

section \<open>PDF extraction (hooks/useContentExtraction.ts, utils/chunkedFileProcessor.ts,
  workers/fileProcessor.worker.ts, utils/fileCache.ts)\<close>

text \<open>Template literals print a non-negative integer in decimal.\<close>

fun showNat :: "nat \<Rightarrow> jsstring" where
  "showNat n = (if n < 10 then [48 + of_nat n] else showNat (n div 10) @ [48 + of_nat (n mod 10)])"

definition joinWith :: "jsstring \<Rightarrow> jsstring list \<Rightarrow> jsstring" where
  "joinWith sep xs = (case xs of [] \<Rightarrow> [] | y # ys \<Rightarrow> y @ concat (map (\<lambda>z. sep @ z) ys))"

text \<open>
  The collaborators. A page either fails (\<open>getPage\<close> or \<open>getTextContent\<close> throws) or has
  text items; its OCR outcome is what the OCR worker would do with the rendered page: throw,
  find no canvas context, or recognise \<open>data.text\<close>. A file has a name, a reported
  size, a MIME type and its bytes, which only the collaborators read: the PDF parser
  (\<open>getDocument\<close>, \<open>Inl\<close> a load error message) and the SHA-256 digest in hexadecimal
  (\<open>None\<close> when the digest throws).
\<close>

datatype ocrOutcome = OcrThrows | OcrNoContext | OcrRecognized jsstring

datatype pdfPage = PageThrows | PageItems "jsstring list" ocrOutcome

type_synonym pdfDocument = "pdfPage list"

datatype pdfAccess = ReadBytes | GetDocument | GetPage nat

record 'b File =
  fileName :: jsstring
  fileSize :: nat
  fileType :: jsstring
  fileBytes :: 'b

record 'b Platform =
  getDocument :: "'b \<Rightarrow> jsstring + pdfDocument"
  sha256Hex :: "'b \<Rightarrow> jsstring option"
  workerFailure :: "jsstring option"

definition pageMarker :: "nat \<Rightarrow> jsstring" where
  "pageMarker pageNum = js ''\<newline>\<newline>--- Page '' @ showNat pageNum @ js '' ---\<newline>''"

definition pageErrorText :: "nat \<Rightarrow> jsstring" where
  "pageErrorText pageNum =
     js ''\<newline>\<newline>--- Page '' @ showNat pageNum
       @ js '' (Error) ---\<newline>[Content could not be extracted]''"

definition pageOcrMarker :: "nat \<Rightarrow> jsstring" where
  "pageOcrMarker pageNum = js ''\<newline>\<newline>--- Page '' @ showNat pageNum @ js '' (OCR) ---\<newline>''"

text \<open>The body of the per-page loop of the direct path in \<open>extractFromPDF\<close>.\<close>

definition directPage :: "nat \<Rightarrow> pdfPage \<Rightarrow> jsstring" where
  "directPage pageNum page =
     (case page of
        PageThrows \<Rightarrow> pageErrorText pageNum
      | PageItems items ocr \<Rightarrow>
          (let pageText = trim (joinWith (js '' '') items)
           in if pageText = [] \<or> length pageText < 5
              then let ocrText = (case ocr of OcrRecognized t \<Rightarrow> trim t | _ \<Rightarrow> [])
                   in if ocrText \<noteq> [] \<and> length ocrText > 0
                      then pageOcrMarker pageNum @ ocrText
                      else pageErrorText pageNum
              else pageMarker pageNum @ pageText))"

definition pageAt :: "pdfDocument \<Rightarrow> nat \<Rightarrow> pdfPage" where
  "pageAt pdf pageNum =
     (if 1 \<le> pageNum \<and> pageNum \<le> length pdf then pdf ! (pageNum - 1) else PageThrows)"

definition directPages :: "pdfDocument \<Rightarrow> jsstring" where
  "directPages pdf = concat (map (\<lambda>pageNum. directPage pageNum (pageAt pdf pageNum)) [1..<length pdf + 1])"

text \<open>\<open>ChunkedFileProcessor.processPdfPageRange\<close>.\<close>

definition chunkedPage :: "nat \<Rightarrow> pdfPage \<Rightarrow> jsstring" where
  "chunkedPage pageNum page =
     (case page of
        PageThrows \<Rightarrow> pageErrorText pageNum
      | PageItems items ocr \<Rightarrow> pageMarker pageNum @ joinWith (js '' '') items)"

definition processPdfPageRange :: "pdfDocument \<Rightarrow> nat \<Rightarrow> nat \<Rightarrow> jsstring" where
  "processPdfPageRange pdf startPage endPage =
     concat (map (\<lambda>pageNum. chunkedPage pageNum (pageAt pdf pageNum)) [startPage..<endPage + 1])"

text \<open>The per-page function of \<open>processPdfInWorker\<close>.\<close>

definition workerPage :: "nat \<Rightarrow> pdfPage \<Rightarrow> jsstring" where
  "workerPage pageNum page =
     (case page of
        PageThrows \<Rightarrow> pageErrorText pageNum
      | PageItems items ocr \<Rightarrow> pageMarker pageNum @ trim (joinWith (js '' '') items))"

definition MAX_FILE_SIZE :: nat where
  "MAX_FILE_SIZE = 500 * 1024 * 1024"

definition DEFAULT_MAX_MEMORY :: nat where
  "DEFAULT_MAX_MEMORY = 100 * 1024 * 1024"

record ProcessingResult =
  resultContent :: jsstring
  totalChunks :: nat
  memoryUsed :: nat

text \<open>
  \<open>ChunkedFileProcessor.processPdfInChunks\<close>, ten pages per chunk, with its memory
  estimate. The second component of the result lists the accesses made to the file and
  the document.
\<close>

fun chunkedLoop :: "pdfDocument \<Rightarrow> nat \<Rightarrow> nat \<Rightarrow> jsstring list \<Rightarrow> nat \<Rightarrow> jsstring list \<times> nat" where
  "chunkedLoop pdf 0 chunkIndex contentChunks currentMemoryUsage = (contentChunks, currentMemoryUsage)"
| "chunkedLoop pdf (Suc remaining) chunkIndex contentChunks currentMemoryUsage =
     (let startPage = chunkIndex * 10 + 1;
          endPage = min ((chunkIndex + 1) * 10) (length pdf);
          chunkContent = processPdfPageRange pdf startPage endPage;
          usage = currentMemoryUsage + length chunkContent * 2;
          usage' = (if usage > DEFAULT_MAX_MEMORY
                    then sum_list (map length contentChunks) * 2 else usage)
      in chunkedLoop pdf remaining (chunkIndex + 1) (contentChunks @ [chunkContent]) usage')"

definition processPdfInChunks ::
  "'b Platform \<Rightarrow> 'b File \<Rightarrow> (jsstring + ProcessingResult) \<times> pdfAccess list" where
  "processPdfInChunks platform file =
     (if fileSize file > MAX_FILE_SIZE
      then (Inl (js ''File too large. Maximum size is ''
                   @ showNat (MAX_FILE_SIZE div (1024 * 1024)) @ js ''MB''), [])
      else case getDocument platform (fileBytes file) of
             Inl message \<Rightarrow>
               (Inl (js ''Chunked processing failed: '' @ message), [ReadBytes, GetDocument])
           | Inr pdf \<Rightarrow>
               (let totalPages = length pdf;
                    pageChunks = (totalPages + 9) div 10;
                    (contentChunks, usage) = chunkedLoop pdf pageChunks 0 [] 0
                in (Inr \<lparr>resultContent = concat contentChunks, totalChunks = pageChunks,
                          memoryUsed = usage\<rparr>,
                    [ReadBytes, GetDocument] @ map GetPage [1..<totalPages + 1])))"



text \<open>
  \<open>FileCache\<close>: a \<open>Map\<close> in insertion order. The fields \<open>processingTime\<close> and
  \<open>metadata\<close> of an entry and the copy kept in \<open>localStorage\<close> are left out.
  \<open>evictLeastUsed\<close> removes at least one entry; on an empty map it reads
  \<open>entries[0]\<close>, which throws (\<open>None\<close>), and \<open>set\<close> catches that and stores nothing.
\<close>

datatype processingMethod = Standard | Chunked | Worker | ServerSide | Ocr

record CacheEntry =
  entryId :: jsstring
  entryFileName :: jsstring
  entryFileSize :: nat
  entryFileHash :: jsstring
  entryContent :: jsstring
  entryProcessingMethod :: processingMethod
  entryTimestamp :: int
  accessCount :: nat
  lastAccessed :: int

record FileCache =
  cacheMap :: "(jsstring \<times> CacheEntry) list"
  hits :: nat
  misses :: nat

definition maxEntries :: nat where
  "maxEntries = 50"

definition maxSizeBytes :: nat where
  "maxSizeBytes = 100 * 1024 * 1024"

definition generateCacheKey :: "jsstring \<Rightarrow> nat \<Rightarrow> jsstring \<Rightarrow> jsstring" where
  "generateCacheKey name size' fileHash =
     name @ js ''_'' @ showNat size' @ js ''_'' @ take 16 fileHash"

definition shouldCache :: "'b File \<Rightarrow> bool" where
  "shouldCache file = (1 * (1024 * 1024) \<le> fileSize file \<and> fileSize file \<le> 50 * (1024 * 1024))"

definition mapSet :: "'k \<Rightarrow> 'v \<Rightarrow> ('k \<times> 'v) list \<Rightarrow> ('k \<times> 'v) list" where
  "mapSet k v m = (if k \<in> fst ` set m then map (\<lambda>(k', v'). if k' = k then (k', v) else (k', v')) m
                   else m @ [(k, v)])"

definition cacheGet ::
  "'b Platform \<Rightarrow> int \<Rightarrow> 'b File \<Rightarrow> FileCache \<Rightarrow> CacheEntry option \<times> FileCache" where
  "cacheGet platform now file c =
     (case sha256Hex platform (fileBytes file) of
        None \<Rightarrow> (None, c\<lparr>misses := misses c + 1\<rparr>)
      | Some fileHash \<Rightarrow>
          (let key = generateCacheKey (fileName file) (fileSize file) fileHash
           in case map_of (cacheMap c) key of
                Some entry \<Rightarrow>
                  (let entry' = entry\<lparr>accessCount := accessCount entry + 1, lastAccessed := now\<rparr>
                   in (Some entry', c\<lparr>cacheMap := mapSet key entry' (cacheMap c), hits := hits c + 1\<rparr>))
              | None \<Rightarrow> (None, c\<lparr>misses := misses c + 1\<rparr>)))"

definition getCurrentSize :: "FileCache \<Rightarrow> nat" where
  "getCurrentSize c = sum_list (map (\<lambda>(k, e). length (entryContent e)) (cacheMap c))"

definition evictLeastUsed :: "FileCache \<Rightarrow> FileCache option" where
  "evictLeastUsed c =
     (let entries = sort_key (\<lambda>(k, e). (int (accessCount e), lastAccessed e)) (cacheMap c);
          entriesToRemove = max 1 (length entries div 4)
      in if length entries < entriesToRemove then None
         else let removed = map fst (take entriesToRemove entries)
              in Some (c\<lparr>cacheMap := filter (\<lambda>(k, e). k \<notin> set removed) (cacheMap c)\<rparr>))"

definition ensureSpace :: "nat \<Rightarrow> FileCache \<Rightarrow> FileCache option" where
  "ensureSpace newContentSize c =
     (let totalSize = getCurrentSize c + newContentSize
      in if length (cacheMap c) \<ge> maxEntries \<or> totalSize > maxSizeBytes
         then evictLeastUsed c else Some c)"

definition cacheSet ::
  "'b Platform \<Rightarrow> int \<Rightarrow> 'b File \<Rightarrow> jsstring \<Rightarrow> processingMethod \<Rightarrow> FileCache \<Rightarrow> FileCache" where
  "cacheSet platform now file content' method c =
     (case sha256Hex platform (fileBytes file) of
        None \<Rightarrow> c
      | Some fileHash \<Rightarrow>
          (let key = generateCacheKey (fileName file) (fileSize file) fileHash;
               entry = \<lparr>entryId = key, entryFileName = fileName file,
                         entryFileSize = fileSize file, entryFileHash = fileHash,
                         entryContent = content', entryProcessingMethod = method,
                         entryTimestamp = now, accessCount = 1, lastAccessed = now\<rparr>
           in case ensureSpace (length content') c of
                None \<Rightarrow> c
              | Some c1 \<Rightarrow> c1\<lparr>cacheMap := mapSet key entry (cacheMap c1)\<rparr>))"

text \<open>
  \<open>processPdfWithWorker\<close>: the worker is unavailable (\<open>workerFailure\<close>) or runs
  \<open>processPdfInWorker\<close> on the document, \<open>chunkSize\<close> pages at a time
  (\<open>chunkSize > 0\<close>; the caller passes 3).
\<close>

record WorkerProcessingResult =
  workerContent :: jsstring
  workerTotalPages :: nat

definition processPdfInWorker :: "pdfDocument \<Rightarrow> nat \<Rightarrow> nat \<Rightarrow> WorkerProcessingResult" where
  "processPdfInWorker pdf chunkSize maxPages =
     (let totalPages = min (length pdf) maxPages;
          startPages = map (\<lambda>i. i * chunkSize + 1) [0..<(totalPages + chunkSize - 1) div chunkSize];
          contentChunks = map (\<lambda>startPage.
              concat (map (\<lambda>pageNum. workerPage pageNum (pageAt pdf pageNum))
                        [startPage..<min (startPage + chunkSize - 1) totalPages + 1])) startPages
      in \<lparr>workerContent = concat contentChunks, workerTotalPages = totalPages\<rparr>)"

definition processPdfWithWorker ::
  "'b Platform \<Rightarrow> 'b File \<Rightarrow> nat \<Rightarrow> nat
     \<Rightarrow> (jsstring + WorkerProcessingResult) \<times> pdfAccess list" where
  "processPdfWithWorker platform file chunkSize maxPages =
     (case workerFailure platform of
        Some message \<Rightarrow> (Inl message, [])
      | None \<Rightarrow>
          (case getDocument platform (fileBytes file) of
             Inl message \<Rightarrow>
               (Inl (js ''Chunked processing failed: '' @ message), [ReadBytes, GetDocument])
           | Inr pdf \<Rightarrow>
               (Inr (processPdfInWorker pdf chunkSize maxPages),
                [ReadBytes, GetDocument] @ map GetPage [1..<min (length pdf) maxPages + 1])))"

text \<open>
  \<open>extractFromPDF\<close>. Of a \<open>ContentSource\<close> the fields \<open>id\<close>, \<open>fileData\<close> and
  \<open>extractedAt\<close> (clock and object URL) are left out, as are the progress updates.
  \<open>toLowerCase\<close> is modelled on ASCII letters. The retry loop of the direct path only
  repeats the creation of the loading task; whether the document loads is the result of
  \<open>getDocument\<close>, awaited once.
\<close>

record ContentSource =
  sourceType :: jsstring
  sourceTitle :: jsstring
  sourceContent :: jsstring
  sourceFilename :: jsstring
  sourceFileType :: jsstring

definition fileSource :: "'b File \<Rightarrow> jsstring \<Rightarrow> ContentSource" where
  "fileSource file content' =
     \<lparr>sourceType = js ''file'', sourceTitle = fileName file, sourceContent = content',
      sourceFilename = fileName file, sourceFileType = fileType file\<rparr>"

definition toLowerCase :: "jsstring \<Rightarrow> jsstring" where
  "toLowerCase s = map (\<lambda>c. if 65 \<le> c \<and> c \<le> 90 then c + 32 else c) s"

definition stringIncludes :: "jsstring \<Rightarrow> jsstring \<Rightarrow> bool" where
  "stringIncludes s sub = list_ex (\<lambda>n. take (length sub) (drop n s) = sub) [0..<length s + 1]"

definition classifyError :: "jsstring \<Rightarrow> jsstring" where
  "classifyError errMessage =
     (let message = toLowerCase errMessage
      in if stringIncludes message (js ''invalid pdf'') \<or> stringIncludes message (js ''corrupted'')
            \<or> stringIncludes message (js ''not a pdf'')
         then js ''The file appears to be corrupted or is not a valid PDF''
         else if stringIncludes message (js ''password'') \<or> stringIncludes message (js ''encrypted'')
         then js ''This PDF is password-protected. Please provide an unprotected version''
         else if stringIncludes message (js ''worker'') \<or> stringIncludes message (js ''script'')
            \<or> stringIncludes message (js ''loading failed'')
         then js ''PDF processing engine failed to load. Please refresh the page and try again''
         else if stringIncludes message (js ''network'') \<or> stringIncludes message (js ''fetch'')
            \<or> stringIncludes message (js ''connection'')
         then js ''Network error occurred. Please check your internet connection and try again''
         else if stringIncludes message (js ''attempts'') \<or> stringIncludes message (js ''incompatible'')
         then js ''This PDF format is not supported or the file is corrupted''
         else if stringIncludes message (js ''no text content'')
         then js ''This PDF contains no extractable text. It may be image-based or scanned''
         else if stringIncludes message (js ''memory'')
         then js ''PDF processing failed due to memory constraints: '' @ errMessage
                @ js ''. Try processing a smaller file or restart the application.''
         else if stringIncludes message (js ''timeout'')
         then js ''PDF processing timed out: '' @ errMessage
                @ js ''. Try processing a smaller file or check your internet connection.''
         else js ''PDF processing failed: '' @ errMessage)"

definition cacheIfCacheable ::
  "'b Platform \<Rightarrow> int \<Rightarrow> 'b File \<Rightarrow> jsstring \<Rightarrow> processingMethod \<Rightarrow> FileCache \<Rightarrow> FileCache" where
  "cacheIfCacheable platform now file content' method c =
     (if shouldCache file then cacheSet platform now file content' method c else c)"

definition handleExtractionError ::
  "'b Platform \<Rightarrow> int \<Rightarrow> 'b File \<Rightarrow> FileCache \<Rightarrow> pdfAccess list \<Rightarrow> jsstring
     \<Rightarrow> (jsstring + ContentSource) \<times> FileCache \<times> pdfAccess list" where
  "handleExtractionError platform now file c accesses errMessage =
     (let message = toLowerCase errMessage
      in if stringIncludes message (js ''worker'') \<or> stringIncludes message (js ''memory'')
            \<or> stringIncludes message (js ''timeout'')
         then (case processPdfInChunks platform file of
                 (Inr result, accesses') \<Rightarrow>
                   (Inr (fileSource file (resultContent result)),
                    cacheIfCacheable platform now file (resultContent result) Chunked c,
                    accesses @ accesses')
               | (Inl recoveryError, accesses') \<Rightarrow>
                   (Inl (classifyError errMessage), c, accesses @ accesses'))
         else (Inl (classifyError errMessage), c, accesses))"

definition directStage ::
  "'b Platform \<Rightarrow> int \<Rightarrow> 'b File \<Rightarrow> FileCache \<Rightarrow> pdfAccess list
     \<Rightarrow> (jsstring + ContentSource) \<times> FileCache \<times> pdfAccess list" where
  "directStage platform now file c accesses =
     (case getDocument platform (fileBytes file) of
        Inl message \<Rightarrow>
          handleExtractionError platform now file c (accesses @ [ReadBytes, GetDocument]) message
      | Inr pdf \<Rightarrow>
          (Inr (fileSource file (trim (directPages pdf))), c,
           accesses @ [ReadBytes, GetDocument] @ map GetPage [1..<length pdf + 1]))"

definition chunkedStage ::
  "'b Platform \<Rightarrow> int \<Rightarrow> 'b File \<Rightarrow> FileCache \<Rightarrow> pdfAccess list
     \<Rightarrow> (jsstring + ContentSource) \<times> FileCache \<times> pdfAccess list" where
  "chunkedStage platform now file c accesses =
     (case processPdfInChunks platform file of
        (Inr result, accesses') \<Rightarrow>
          (Inr (fileSource file (resultContent result)),
           cacheIfCacheable platform now file (resultContent result) Chunked c,
           accesses @ accesses')
      | (Inl chunkError, accesses') \<Rightarrow>
          directStage platform now file c (accesses @ accesses'))"

definition extractFromPDF ::
  "'b Platform \<Rightarrow> int \<Rightarrow> 'b File \<Rightarrow> FileCache
     \<Rightarrow> (jsstring + ContentSource) \<times> FileCache \<times> pdfAccess list" where
  "extractFromPDF platform now file c =
     (let (cachedEntry, c1) =
            (if shouldCache file then cacheGet platform now file c else (None, c))
      in case cachedEntry of
           Some entry \<Rightarrow> (Inr (fileSource file (entryContent entry)), c1, [])
         | None \<Rightarrow>
             (let useWorkerProcessing = (fileSize file > 5 * (1024 * 1024));
                  useChunkedProcessing = (fileSize file > 10 * (1024 * 1024)
                                           \<and> fileSize file \<le> 25 * (1024 * 1024));
                  useWorkerForVeryLarge = (fileSize file > 25 * (1024 * 1024));
                  preferWorker = (useWorkerForVeryLarge \<or> useChunkedProcessing
                                   \<or> useWorkerProcessing \<or> fileSize file \<ge> 10 * (1024 * 1024));
                  afterWorker = (\<lambda>accesses.
                     if useChunkedProcessing \<or> useWorkerForVeryLarge \<or> preferWorker
                     then chunkedStage platform now file c1 accesses
                     else directStage platform now file c1 accesses)
              in if preferWorker
                 then (case processPdfWithWorker platform file 3 500 of
                         (Inr result, accesses) \<Rightarrow>
                           (Inr (fileSource file (workerContent result)),
                            cacheIfCacheable platform now file (workerContent result) Worker c1,
                            accesses)
                       | (Inl workerError, accesses) \<Rightarrow> afterWorker accesses)
                 else afterWorker []))"

text \<open>Example documents, files and platform.\<close>

definition scannedPage :: pdfPage where
  "scannedPage = PageItems [js ''ab''] (OcrRecognized (js ''Recovered text''))"

definition helloPdf :: pdfDocument where
  "helloPdf = [PageItems [js ''Hello'', js ''world''] OcrThrows]"

definition examplePlatform :: "unit Platform" where
  "examplePlatform =
     \<lparr>getDocument = (\<lambda>bytes. Inr helloPdf),
      sha256Hex = (\<lambda>bytes. Some (js ''0123456789abcdef0123456789abcdef'')),
      workerFailure = None\<rparr>"

definition emptyCache :: FileCache where
  "emptyCache = \<lparr>cacheMap = [], hits = 0, misses = 0\<rparr>"

definition pdfFile :: "nat \<Rightarrow> unit File" where
  "pdfFile size' =
     \<lparr>fileName = js ''a.pdf'', fileSize = size', fileType = js ''application/pdf'',
      fileBytes = ()\<rparr>"

definition helloEntry :: "nat \<Rightarrow> int \<Rightarrow> CacheEntry" where
  "helloEntry count accessed =
     \<lparr>entryId = js ''a.pdf_6291456_0123456789abcdef'', entryFileName = js ''a.pdf'',
      entryFileSize = 6291456, entryFileHash = js ''0123456789abcdef0123456789abcdef'',
      entryContent = js ''\<newline>\<newline>--- Page 1 ---\<newline>Hello world'',
      entryProcessingMethod = Worker, entryTimestamp = 1000, accessCount = count,
      lastAccessed = accessed\<rparr>"

declare showNat.simps [simp del]

section \<open>Properties of the chunker\<close>

lemma lastIndexOf_le: "lastIndexOf s c i \<le> int i"
  by (induction i) auto

lemma lastIndexOf_ge: "- 1 \<le> lastIndexOf s c i"
  by (induction i) auto

lemma chunkEndFor_bounds:
  assumes "0 < N" and "cur < length text"
  shows "cur < chunkEndFor text N cur \<and> chunkEndFor text N cur \<le> length text
         \<and> chunkEndFor text N cur \<le> cur + N + 1"
proof -
  let ?e = "min (cur + N) (length text)"
  have a: "lastIndexOf text 46 ?e \<le> int ?e" "lastIndexOf text 63 ?e \<le> int ?e"
     "lastIndexOf text 33 ?e \<le> int ?e" "lastIndexOf text 32 ?e \<le> int ?e"
    by (rule lastIndexOf_le)+
  show ?thesis
    using assms a unfolding chunkEndFor_def Let_def
    by (auto simp: min_def max_def split: if_splits)
qed


lemma slice_append_drop:
  assumes "cur \<le> e" and "e \<le> length text"
  shows "slice text cur e @ drop e text = drop cur text"
proof -
  have "drop e text = drop (e - cur) (drop cur text)"
    using assms by simp
  then show ?thesis
    unfolding slice_def by (metis append_take_drop_id)
qed

lemma length_slice_le: "length (slice text cur e) \<le> e - cur"
  by (simp add: slice_def)

lemma chunkLoop_slices:
  assumes "0 < N"
  shows "cur \<le> length text \<Longrightarrow>
         \<exists>slices. chunkLoop text N cur acc = Some (acc @ map trim slices)
            \<and> concat slices = drop cur text
            \<and> (\<forall>s \<in> set slices. length s \<le> N + 1)"
proof (induction "length text - cur" arbitrary: cur acc rule: less_induct)
  case less
  show ?case
  proof (cases "cur < length text")
    case False
    then have "chunkLoop text N cur acc = Some acc"
      by (subst chunkLoop.simps) simp
    moreover from False less.prems have "drop cur text = []" by simp
    ultimately show ?thesis by (intro exI[of _ "[]"]) simp
  next
    case True
    define e where "e = chunkEndFor text N cur"
    from chunkEndFor_bounds[OF assms True]
    have b: "cur < e" "e \<le> length text" "e \<le> cur + N + 1"
      by (simp_all add: e_def)
    then have "length text - e < length text - cur" using True by arith
    from less.hyps[OF this b(2), of "acc @ [trim (slice text cur e)]"]
    obtain slices where s:
      "chunkLoop text N e (acc @ [trim (slice text cur e)])
         = Some ((acc @ [trim (slice text cur e)]) @ map trim slices)"
      "concat slices = drop e text" "\<forall>s \<in> set slices. length s \<le> N + 1"
      by blast
    have step: "chunkLoop text N cur acc
                  = chunkLoop text N e (acc @ [trim (slice text cur e)])"
      using True by (subst chunkLoop.simps) (simp add: e_def Let_def)
    have len: "length (slice text cur e) \<le> N + 1"
      using length_slice_le[of "text" cur e] b by arith
    show ?thesis
    proof (intro exI[of _ "slice text cur e # slices"] conjI)
      show "chunkLoop text N cur acc = Some (acc @ map trim (slice text cur e # slices))"
        using step s(1) by simp
      show "concat (slice text cur e # slices) = drop cur text"
        using s(2) slice_append_drop[of cur e "text"] b by simp
      show "\<forall>s \<in> set (slice text cur e # slices). length s \<le> N + 1"
        using s(3) len by simp
    qed
  qed
qed

lemma length_trim_le: "length (trim s) \<le> length s"
proof -
  have "length (trim s) \<le> length (dropWhile isWhiteSpace s)"
    unfolding trim_def by (metis length_dropWhile_le length_rev)
  also have "\<dots> \<le> length s" by (rule length_dropWhile_le)
  finally show ?thesis .
qed

lemma filter_dropWhile_ws:
  "filter (\<lambda>c. \<not> isWhiteSpace c) (dropWhile isWhiteSpace s) = filter (\<lambda>c. \<not> isWhiteSpace c) s"
  by (induction s) auto

lemma filter_trim:
  "filter (\<lambda>c. \<not> isWhiteSpace c) (trim s) = filter (\<lambda>c. \<not> isWhiteSpace c) s"
proof -
  have "filter (\<lambda>c. \<not> isWhiteSpace c) (trim s)
        = rev (filter (\<lambda>c. \<not> isWhiteSpace c) (dropWhile isWhiteSpace (rev (dropWhile isWhiteSpace s))))"
    by (simp add: trim_def rev_filter)
  also have "\<dots> = rev (filter (\<lambda>c. \<not> isWhiteSpace c) (rev (dropWhile isWhiteSpace s)))"
    by (simp only: filter_dropWhile_ws)
  also have "\<dots> = filter (\<lambda>c. \<not> isWhiteSpace c) (dropWhile isWhiteSpace s)"
    by (simp add: rev_filter)
  finally show ?thesis by (simp only: filter_dropWhile_ws)
qed

lemma concat_filter_nonempty:
  "concat (filter (\<lambda>chunk. 0 < length chunk) xs) = concat xs"
  by (induction xs) auto


lemma subseq_trim: "subseq (trim s) s"
proof -
  have "suffix (dropWhile isWhiteSpace (rev (dropWhile isWhiteSpace s))) (rev (dropWhile isWhiteSpace s))"
    by (rule suffix_dropWhile)
  then have "prefix (trim s) (dropWhile isWhiteSpace s)"
    unfolding trim_def by (simp add: suffix_to_prefix)
  then have "subseq (trim s) (dropWhile isWhiteSpace s)"
    by (rule prefix_imp_subseq)
  moreover have "subseq (dropWhile isWhiteSpace s) s"
    using suffix_dropWhile[of isWhiteSpace s] by (rule suffix_imp_subseq)
  ultimately show ?thesis by (rule subseq_order.trans)
qed

lemma subseq_concat_map_trim: "subseq (concat (map trim slices)) (concat slices)"
  by (induction slices) (auto intro: list_emb_append_mono subseq_trim)

lemma filter_concat_map_trim:
  "filter (\<lambda>c. \<not> isWhiteSpace c) (concat (map trim slices))
     = filter (\<lambda>c. \<not> isWhiteSpace c) (concat slices)"
  by (induction slices) (auto simp: filter_trim)

lemma chunkTextForSpeech_long:
  assumes "0 < N" and "N < length text"
  shows "\<exists>slices. chunkTextForSpeech text N
              = Some (filter (\<lambda>chunk. 0 < length chunk) (map trim slices))
            \<and> concat slices = text
            \<and> (\<forall>s \<in> set slices. length s \<le> N + 1)"
proof -
  from chunkLoop_slices[OF assms(1), of 0 "text" "[]"]
  obtain slices where "chunkLoop text N 0 [] = Some (map trim slices)"
    "concat slices = text" "\<forall>s \<in> set slices. length s \<le> N + 1"
    by auto
  then show ?thesis
    using assms(2) by (auto simp: chunkTextForSpeech_def)
qed

lemma chunkTextForSpeech_returns:
  assumes "0 < N"
  shows "\<exists>chunks. chunkTextForSpeech text N = Some chunks"
proof (cases "length text \<le> N")
  case True
  then show ?thesis by (simp add: chunkTextForSpeech_def)
next
  case False
  then show ?thesis using chunkTextForSpeech_long[OF assms, of "text"] by auto
qed

lemma chunk_length_le_Suc:
  assumes "0 < N" and "chunkTextForSpeech text N = Some chunks" and "chunk \<in> set chunks"
  shows "length chunk \<le> N + 1"
proof (cases "length text \<le> N")
  case True
  with assms show ?thesis by (auto simp: chunkTextForSpeech_def)
next
  case False
  then obtain slices where s: "chunkTextForSpeech text N
              = Some (filter (\<lambda>chunk. 0 < length chunk) (map trim slices))"
     "\<forall>s \<in> set slices. length s \<le> N + 1"
    using chunkTextForSpeech_long[OF assms(1), of "text"] by auto
  with assms(2,3) obtain sl where "sl \<in> set slices" "chunk = trim sl" by auto
  with s(2) length_trim_le[of sl] show ?thesis by fastforce
qed

lemma lastIndexOf_hit: "i < length s \<Longrightarrow> s ! i = c \<Longrightarrow> lastIndexOf s c i = int i"
  by (cases i) auto

lemma chunkEndFor_terminator:
  assumes "0 < N" and "N < length t" and "t ! N = 46 \<or> t ! N = 63 \<or> t ! N = 33"
  shows "chunkEndFor t N 0 = N + 1"
proof -
  have le: "lastIndexOf t 46 N \<le> int N" "lastIndexOf t 63 N \<le> int N"
      "lastIndexOf t 33 N \<le> int N"
    by (rule lastIndexOf_le)+
  have "lastIndexOf t 46 N = int N \<or> lastIndexOf t 63 N = int N \<or> lastIndexOf t 33 N = int N"
    using assms(2,3) lastIndexOf_hit[of N t] by auto
  with le have "max (max (lastIndexOf t 46 N) (lastIndexOf t 63 N)) (lastIndexOf t 33 N) = int N"
    by (auto simp: max_def)
  then show ?thesis
    using assms(1,2) by (simp add: chunkEndFor_def Let_def min_def)
qed

lemma trim_unchanged:
  assumes "s \<noteq> []" and "\<not> isWhiteSpace (hd s)" and "\<not> isWhiteSpace (last s)"
  shows "trim s = s"
proof -
  have a: "dropWhile isWhiteSpace s = s"
    using assms(1,2) by (cases s) auto
  have "rev s \<noteq> []" "\<not> isWhiteSpace (hd (rev s))"
    using assms(1,3) by (simp_all add: hd_rev)
  then have "dropWhile isWhiteSpace (rev s) = rev s"
    by (cases "rev s") auto
  with a show ?thesis by (simp add: trim_def)
qed

lemma first_chunk_overflow:
  assumes "0 < N" and "N < length t" and "t ! N = 46 \<or> t ! N = 63 \<or> t ! N = 33"
    and "\<not> isWhiteSpace (t ! 0)"
  shows "\<exists>rest. chunkTextForSpeech t N = Some (take (N + 1) t # rest)
           \<and> length (take (N + 1) t) = N + 1"
proof -
  let ?c = "take (N + 1) t"
  have e: "chunkEndFor t N 0 = N + 1" by (rule chunkEndFor_terminator[OF assms(1-3)])
  have ne: "?c \<noteq> []" using assms(2) by auto
  have hd: "hd ?c = t ! 0" using assms(2) by (cases t) auto
  have "?c = take N t @ [t ! N]"
    using assms(2) by (simp add: take_Suc_conv_app_nth)
  then have "last ?c = t ! N" by simp
  then have "\<not> isWhiteSpace (last ?c)"
    using assms(3) by (auto simp: isWhiteSpace_def)
  with ne hd assms(4) have tr: "trim ?c = ?c" by (simp add: trim_unchanged)
  have pos: "0 < length t" using assms(2) by arith
  have step: "chunkLoop t N 0 [] = chunkLoop t N (N + 1) [?c]"
    using pos e tr by (subst chunkLoop.simps) (simp add: Let_def slice_def)
  from chunkLoop_slices[OF assms(1), of "N + 1" t "[?c]"] assms(2)
  obtain slices where "chunkLoop t N (N + 1) [?c] = Some ([?c] @ map trim slices)"
    by auto
  with step ne have "chunkTextForSpeech t N
      = Some (?c # filter (\<lambda>chunk. 0 < length chunk) (map trim slices))"
    using assms(2) by (simp add: chunkTextForSpeech_def)
  then show ?thesis using assms(2) by simp
qed

section \<open>Properties of the playback hook\<close>

lemma chunkTextForSpeech_short:
  "length t \<le> N \<Longrightarrow> chunkTextForSpeech t N = Some [t]"
  by (simp add: chunkTextForSpeech_def)

lemma playing_reachable:
  "startReading (js ''Hello world'') 0 0
     (initialHook\<lparr>settings := (settings initialHook)\<lparr>voice := Some enVoice\<rparr>,
                  availableVoices := [enVoice]\<rparr>) = Some playingHook"
  by (simp add: startReading_def initialHook_def playingHook_def sliceFrom_def
      chunkTextForSpeech_short speakNextChunk_def helloUtterance_def js_def Let_def)

lemma playUtterance_fst:
  "fst (playUtterance idxs h) = map (\<lambda>i. accumulatedCharactersRef h + int i) idxs"
  by (induction idxs arbitrary: h) (simp_all add: split_beta Let_def onboundary_def)

lemma playUtterance_snd:
  "snd (playUtterance idxs h)
     = (if idxs = [] then h
        else h\<lparr>session := (session h)\<lparr>currentPosition :=
                 accumulatedCharactersRef h + int (last idxs)\<rparr>\<rparr>)"
  by (induction idxs arbitrary: h) (simp_all add: split_beta Let_def onboundary_def)

lemma sorted_le_last: "sorted xs \<Longrightarrow> x \<in> set xs \<Longrightarrow> x \<le> last xs"
  by (induction xs) auto

lemma sum_chunk_lengths:
  assumes "0 < N" and "chunkTextForSpeech t N = Some chunks"
  shows "sum_list (map length chunks) \<le> length t"
proof (cases "length t \<le> N")
  case True
  with assms show ?thesis by (auto simp: chunkTextForSpeech_def)
next
  case False
  then obtain slices where s: "chunkTextForSpeech t N
              = Some (filter (\<lambda>chunk. 0 < length chunk) (map trim slices))"
     "concat slices = t"
    using chunkTextForSpeech_long[OF assms(1), of t] by auto
  have "concat chunks = concat (map trim slices)"
    using s(1) assms(2) concat_filter_nonempty[of "map trim slices"] by simp
  then have "length (concat chunks) \<le> length (concat slices)"
    using list_emb_length[OF subseq_concat_map_trim[of slices]] by simp
  then show ?thesis using s(2) by (simp add: length_concat)
qed

lemma sliceFrom_length:
  assumes "fromPosition \<le> int (length c)"
  shows "fromPosition + int (length (sliceFrom c fromPosition)) \<le> int (length c)"
  using assms by (auto simp: sliceFrom_def)

lemma playback_monotone:
  assumes "midPlayback h"
    and "boundaryScriptOk script (drop (currentChunkIndexRef h) (chunksRef h))"
  shows "sorted (currentPosition (session h) # fst (playback script h))
         \<and> fst (playback script h) \<noteq> []
         \<and> last (fst (playback script h)) = totalCharacters (session h)
         \<and> \<not> isPlaying (session (snd (playback script h)))"
  using assms
proof (induction script arbitrary: h)
  case Nil
  then show ?case by (simp add: midPlayback_def boundaryScriptOk_def)
next
  case (Cons idxs rest)
  let ?i = "currentChunkIndexRef h"
  let ?chunks = "chunksRef h"
  let ?acc = "accumulatedCharactersRef h"
  from Cons.prems(1) obtain u where
    mp: "isChunkedPlaybackRef h" "?i < length ?chunks" "utteranceRef h = Some u"
        "utterText u = ?chunks ! ?i" "currentPosition (session h) \<le> ?acc"
        "?acc + int (sum_list (map length (drop ?i ?chunks))) \<le> totalCharacters (session h)"
    by (auto simp: midPlayback_def split: option.splits)
  have dr: "drop ?i ?chunks = (?chunks ! ?i) # drop (Suc ?i) ?chunks"
    using mp(2) by (simp add: Cons_nth_drop_Suc)
  from Cons.prems(2) dr have
    ok: "sorted idxs" "\<forall>i \<in> set idxs. i \<le> length (?chunks ! ?i)"
        "boundaryScriptOk rest (drop (Suc ?i) ?chunks)"
    by (auto simp: boundaryScriptOk_def)
  define h1 where "h1 = snd (playUtterance idxs h)"
  define ps where "ps = fst (playUtterance idxs h)"
  define h2 where "h2 = chunkTimer (onend (utterText u) h1)"
  have pu: "playUtterance idxs h = (ps, h1)" by (simp add: ps_def h1_def)
  have ps_eq: "ps = map (\<lambda>i. ?acc + int i) idxs"
    by (simp add: ps_def playUtterance_fst)
  have h1_eq: "h1 = (if idxs = [] then h
        else h\<lparr>session := (session h)\<lparr>currentPosition := ?acc + int (last idxs)\<rparr>\<rparr>)"
    by (simp add: h1_def playUtterance_snd)
  have pb: "fst (playback (idxs # rest) h) = ps @ currentPosition (session h2) # fst (playback rest h2)"
       "snd (playback (idxs # rest) h) = snd (playback rest h2)"
    using mp(1,3) pu by (simp_all add: h2_def Let_def split: prod.splits)
  have sorted_ps: "sorted ps"
    using ok(1) unfolding ps_eq by (simp add: sorted_wrt_iff_nth_less)
  have ps_lo: "\<forall>p \<in> set ps. currentPosition (session h) \<le> p"
    using mp(5) unfolding ps_eq by auto
  have ps_hi: "\<forall>p \<in> set ps. p \<le> currentPosition (session h1)"
  proof (cases "idxs = []")
    case True
    then show ?thesis by (simp add: ps_eq)
  next
    case False
    have "\<forall>i \<in> set idxs. i \<le> last idxs"
      using ok(1) by (auto intro: sorted_le_last)
    then show ?thesis using False by (auto simp: ps_eq h1_eq)
  qed
  have h1_pos: "currentPosition (session h) \<le> currentPosition (session h1)"
               "currentPosition (session h1) \<le> ?acc + int (length (?chunks ! ?i))"
    using mp(5) ok(2) by (auto simp: h1_eq)
  have tot: "?acc + int (length (?chunks ! ?i))
             + int (sum_list (map length (drop (Suc ?i) ?chunks))) \<le> totalCharacters (session h)"
    using mp(6) dr by simp
  show ?case
  proof (cases "Suc ?i < length ?chunks")
    case False
    then have rest_nil: "rest = []"
      using ok(3) by (simp add: boundaryScriptOk_def)
    have h2_pos: "currentPosition (session h2) = totalCharacters (session h)"
         "\<not> isPlaying (session h2)"
      using False mp(1)
      by (auto simp: h2_def h1_eq chunkTimer_def onend_def speakNextChunk_def)
    have "currentPosition (session h1) \<le> totalCharacters (session h)"
      using h1_pos(2) tot by simp
    then have hi2: "\<forall>p \<in> set ps. p \<le> totalCharacters (session h)"
      using ps_hi by (meson order_trans)
    have "currentPosition (session h) \<le> totalCharacters (session h)"
      using h1_pos(1) \<open>currentPosition (session h1) \<le> totalCharacters (session h)\<close> by simp
    then show ?thesis
      unfolding pb
      using rest_nil h2_pos sorted_ps ps_lo hi2
      by (auto simp: sorted_append)
  next
    case True
    have h2_fields:
      "currentPosition (session h2) = currentPosition (session h1)"
      "totalCharacters (session h2) = totalCharacters (session h)"
      "accumulatedCharactersRef h2 = ?acc + int (length (?chunks ! ?i))"
      "currentChunkIndexRef h2 = Suc ?i" "chunksRef h2 = ?chunks"
      "isChunkedPlaybackRef h2"
      "\<exists>u'. utteranceRef h2 = Some u' \<and> utterText u' = ?chunks ! Suc ?i"
      using True mp(1,4)
      by (auto simp: h2_def h1_eq chunkTimer_def onend_def speakNextChunk_def Let_def)
    have mp2: "midPlayback h2"
      unfolding midPlayback_def using h2_fields True h1_pos(2) tot by auto
    have ok2: "boundaryScriptOk rest (drop (currentChunkIndexRef h2) (chunksRef h2))"
      using ok(3) h2_fields by simp
    from Cons.IH[OF mp2 ok2] have ih:
      "sorted (currentPosition (session h2) # fst (playback rest h2))"
      "fst (playback rest h2) \<noteq> []"
      "last (fst (playback rest h2)) = totalCharacters (session h2)"
      "\<not> isPlaying (session (snd (playback rest h2)))"
      by auto
    have qs_lo: "\<forall>q \<in> set (fst (playback rest h2)). currentPosition (session h1) \<le> q"
      using ih(1) h2_fields(1) by auto
    have cross: "\<forall>p \<in> set ps. \<forall>q \<in> set (fst (playback rest h2)). p \<le> q"
      using ps_hi qs_lo by (meson order_trans)
    have lo2: "\<forall>q \<in> set (fst (playback rest h2)). currentPosition (session h) \<le> q"
      using qs_lo h1_pos(1) by (meson order_trans)
    show ?thesis
      unfolding pb
      using ih h2_fields(1,2) sorted_ps ps_lo ps_hi h1_pos(1) cross lo2
      by (auto simp: sorted_append)
  qed
qed


lemma chunkTextForSpeech_default:
  "\<exists>chunks. chunkTextForSpeech t 32000 = Some chunks \<and> sum_list (map length chunks) \<le> length t"
proof -
  obtain chunks where c: "chunkTextForSpeech t 32000 = Some chunks"
    using chunkTextForSpeech_returns[of 32000 t] by auto
  with sum_chunk_lengths[of 32000 t chunks] show ?thesis by simp
qed

lemma startReading_started:
  assumes "content' \<noteq> []"
    and "chunkTextForSpeech (sliceFrom content' fromPosition) 32000 = Some chunks"
  shows "startReading content' fromPosition now h =
           Some (speakNextChunk
             (h\<lparr>isStoppingRef := False, lastCancelAtRef := now,
                 synthCalls := synthCalls h @ [Cancel],
                 chunksRef := chunks, currentChunkIndexRef := 0,
                 accumulatedCharactersRef := fromPosition, isChunkedPlaybackRef := True,
                 session := (session h)\<lparr>content := content', isPlaying := True,
                             isPaused := False, totalCharacters := int (length content'),
                             currentPosition := fromPosition\<rparr>\<rparr>))"
  using assms by (simp add: startReading_def Let_def)

lemma startReading_flags:
  "flagsExclusive h \<Longrightarrow> \<exists>h'. startReading c p now h = Some h' \<and> flagsExclusive h'"
proof (cases "c = []")
  case True
  assume "flagsExclusive h"
  with True show ?thesis by (simp add: startReading_def)
next
  case False
  obtain chunks where "chunkTextForSpeech (sliceFrom c p) 32000 = Some chunks"
    using chunkTextForSpeech_default by blast
  from startReading_started[OF False this] show ?thesis
    by (auto simp: flagsExclusive_def speakNextChunk_def Let_def)
qed

lemma settingsEffect_flags:
  "flagsExclusive h \<Longrightarrow> \<exists>h'. settingsEffect now h = Some h' \<and> flagsExclusive h'"
proof -
  assume a: "flagsExclusive h"
  let ?h1 = "h\<lparr>lastCancelAtRef := now, synthCalls := synthCalls h @ [Cancel],
                      isStoppingRef := False, isChunkedPlaybackRef := False\<rparr>"
  have "flagsExclusive ?h1" using a by (simp add: flagsExclusive_def)
  from startReading_flags[OF this, of "content (session h)" "currentPosition (session h)" now]
  show ?thesis using a by (simp add: settingsEffect_def Let_def)
qed

lemma resumeReading_flags:
  "flagsExclusive h \<Longrightarrow> \<exists>h'. resumeReading now h = Some h' \<and> flagsExclusive h'"
proof -
  assume a: "flagsExclusive h"
  let ?h1 = "h\<lparr>actionLockRef := True, lastCancelAtRef := now,
                           synthCalls := synthCalls h @ [Cancel],
                           isStoppingRef := False, isChunkedPlaybackRef := False\<rparr>"
  have "flagsExclusive ?h1" using a by (simp add: flagsExclusive_def)
  from startReading_flags[OF this, of "content (session h)" "currentPosition (session h)" now]
  obtain h2 where "startReading (content (session h)) (currentPosition (session h)) now ?h1 = Some h2"
    by blast
  then show ?thesis using a
    by (auto simp: resumeReading_def Let_def flagsExclusive_def)
qed

lemma updateSettings_flags:
  "flagsExclusive h \<Longrightarrow> \<exists>h'. updateSettings p voices now h = Some h' \<and> flagsExclusive h'"
proof -
  assume a: "flagsExclusive h"
  let ?cur = "mergeSettings (settings h) p"
  let ?h = "h\<lparr>settings := ?cur\<rparr>"
  let ?hA = "if voice (settings h) \<noteq> voice ?cur then ?h\<lparr>availableVoices := voices\<rparr> else ?h"
  have fa: "flagsExclusive ?hA" using a by (simp add: flagsExclusive_def)
  obtain hB where hB: "(if settingsDepsChanged (settings h) ?cur then settingsEffect now ?hA else Some ?hA) = Some hB"
      "flagsExclusive hB"
    using settingsEffect_flags[OF fa, of now] fa by (cases "settingsDepsChanged (settings h) ?cur") auto
  have "\<And>v. flagsExclusive (hB\<lparr>settings := ?cur\<lparr>voice := Some v\<rparr>\<rparr>)"
    using hB(2) by (simp add: flagsExclusive_def)
  then have "\<And>v. \<exists>h'. settingsEffect now (hB\<lparr>settings := ?cur\<lparr>voice := Some v\<rparr>\<rparr>) = Some h' \<and> flagsExclusive h'"
    by (rule settingsEffect_flags)
  then show ?thesis
    using hB unfolding updateSettings_def commitSettings_def Let_def
    by (auto split: option.splits)
qed

lemma step_flags:
  "flagsExclusive h \<Longrightarrow> \<exists>h'. step event now h = Some h' \<and> flagsExclusive h'"
proof (cases event)
  case (StartReading c p)
  assume "flagsExclusive h"
  then show ?thesis using StartReading startReading_flags by simp
next
  case ResumeReading
  assume "flagsExclusive h"
  then show ?thesis using ResumeReading resumeReading_flags by simp
next
  case (UpdateSettings p voices)
  assume "flagsExclusive h"
  then show ?thesis using UpdateSettings updateSettings_flags by simp
qed (auto simp: flagsExclusive_def pauseReading_def pauseFallbackTimer_def resumeUnlockTimer_def
      stopReading_def stopResetTimer_def onboundary_def onend_def chunkTimer_def
      speakNextChunk_def onerror_def Let_def)

lemma run_flags:
  "flagsExclusive h \<Longrightarrow> \<exists>h'. run events h = Some h' \<and> flagsExclusive h'"
proof (induction events arbitrary: h)
  case Nil
  then show ?case by simp
next
  case (Cons e events)
  obtain event now where e: "e = (event, now)" by (cases e)
  from step_flags[OF Cons.prems, of event now] obtain h1 where
    "step event now h = Some h1" "flagsExclusive h1" by blast
  with Cons.IH[of h1] e show ?case by simp
qed

lemma chunkTextForSpeech_nonempty:
  assumes "0 < N" and "length t \<le> N \<or> (\<exists>c \<in> set t. \<not> isWhiteSpace c)"
  shows "\<exists>chunk rest. chunkTextForSpeech t N = Some (chunk # rest)"
proof (cases "length t \<le> N")
  case True
  then show ?thesis by (simp add: chunkTextForSpeech_def)
next
  case False
  with assms(2) have nw: "filter (\<lambda>c. \<not> isWhiteSpace c) t \<noteq> []"
    by (auto simp: filter_empty_conv)
  from False obtain slices where s: "chunkTextForSpeech t N
              = Some (filter (\<lambda>chunk. 0 < length chunk) (map trim slices))"
     "concat slices = t"
    using chunkTextForSpeech_long[OF assms(1), of t] by auto
  let ?chunks = "filter (\<lambda>chunk. 0 < length chunk) (map trim slices)"
  have "filter (\<lambda>c. \<not> isWhiteSpace c) (concat ?chunks) = filter (\<lambda>c. \<not> isWhiteSpace c) t"
    using filter_concat_map_trim[of slices] s(2) concat_filter_nonempty[of "map trim slices"]
    by simp
  with nw have "?chunks \<noteq> []" by auto
  then show ?thesis using s(1) by (cases ?chunks) auto
qed

lemma position_follows_events:
  "map_option (observedPositions [[4, 0]]) (startReading (js ''abc def'') 0 0 initialHook)
     = Some [0, 4, 0, 7]"
  by (simp add: observedPositions_def startReading_def initialHook_def sliceFrom_def
      chunkTextForSpeech_short speakNextChunk_def onboundary_def onend_def chunkTimer_def
      js_def Let_def)

lemma stale_onend_moves_cursors:
  "currentChunkIndexRef (onend chunk (stopReading now h)) = 1
   \<and> accumulatedCharactersRef (onend chunk (stopReading now h)) = int (length chunk)"
  by (simp add: stopReading_def onend_def)

section \<open>Properties of the extraction pipeline\<close>

lemma showNat_500: "showNat 500 = js ''500''"
  by code_simp

lemma directPage_ocr:
  assumes "length (trim (joinWith (js '' '') items)) < 5" and "trim t \<noteq> []"
  shows "directPage pageNum (PageItems items (OcrRecognized t)) = pageOcrMarker pageNum @ trim t"
  using assms by (simp add: directPage_def Let_def)

lemma directPages_hello: "trim (directPages helloPdf) = js ''--- Page 1 ---\<newline>Hello world''"
  by code_simp

lemma workerContent_hello:
  "workerContent (processPdfInWorker helloPdf 3 500) = js ''\<newline>\<newline>--- Page 1 ---\<newline>Hello world''"
  by code_simp

lemma showNat_sizes:
  "showNat 2097152 = js ''2097152''" "showNat 6291456 = js ''6291456''"
  by (simp_all add: showNat.simps js_def)

lemma small_file_direct:
  assumes "1024 * 1024 \<le> fileSize file" and "fileSize file \<le> 5 * (1024 * 1024)"
    and "getDocument platform (fileBytes file) = Inr pdf"
    and "cacheGet platform now file c = (None, c1)"
  shows "extractFromPDF platform now file c
           = (Inr (fileSource file (trim (directPages pdf))), c1,
              [ReadBytes, GetDocument] @ map GetPage [1..<length pdf + 1])"
  using assms by (simp add: extractFromPDF_def shouldCache_def directStage_def Let_def)

lemma cacheGet_miss:
  assumes "sha256Hex platform (fileBytes file) = Some fileHash"
    and "map_of (cacheMap c) (generateCacheKey (fileName file) (fileSize file) fileHash) = None"
  shows "cacheGet platform now file c = (None, c\<lparr>misses := misses c + 1\<rparr>)"
  using assms by (simp add: cacheGet_def Let_def)

lemma cacheKey_medium:
  "generateCacheKey (js ''a.pdf'') 6291456 (js ''0123456789abcdef0123456789abcdef'')
     = js ''a.pdf_6291456_0123456789abcdef''"
  by (simp add: generateCacheKey_def showNat_sizes) (simp add: js_def)

lemma worker_extraction_cached:
  "extractFromPDF examplePlatform 1000 (pdfFile (6 * 1024 * 1024)) emptyCache
     = (Inr (fileSource (pdfFile (6 * 1024 * 1024)) (js ''\<newline>\<newline>--- Page 1 ---\<newline>Hello world'')),
        \<lparr>cacheMap = [(js ''a.pdf_6291456_0123456789abcdef'', helloEntry 1 1000)],
          hits = 0, misses = 1\<rparr>,
        [ReadBytes, GetDocument, GetPage 1])
   \<and> extractFromPDF examplePlatform 2000 (pdfFile (6 * 1024 * 1024))
        \<lparr>cacheMap = [(js ''a.pdf_6291456_0123456789abcdef'', helloEntry 1 1000)],
          hits = 0, misses = 1\<rparr>
     = (Inr (fileSource (pdfFile (6 * 1024 * 1024)) (js ''\<newline>\<newline>--- Page 1 ---\<newline>Hello world'')),
        \<lparr>cacheMap = [(js ''a.pdf_6291456_0123456789abcdef'', helloEntry 2 2000)],
          hits = 1, misses = 1\<rparr>,
        [])"
proof -
  have pages: "map GetPage [1..<min (length helloPdf) 500 + 1] = [GetPage 1]"
    by (simp add: helloPdf_def)
  have w: "processPdfWithWorker examplePlatform (pdfFile 6291456) 3 500
             = (Inr (processPdfInWorker helloPdf 3 500), [ReadBytes, GetDocument, GetPage 1])"
    using pages by (simp add: processPdfWithWorker_def examplePlatform_def)
  show ?thesis
    by (simp add: extractFromPDF_def shouldCache_def pdfFile_def cacheGet_def cacheSet_def
        cacheIfCacheable_def ensureSpace_def getCurrentSize_def maxEntries_def maxSizeBytes_def
        mapSet_def emptyCache_def examplePlatform_def[THEN arg_cong, of sha256Hex]
        cacheKey_medium w[unfolded pdfFile_def] workerContent_hello helloEntry_def fileSource_def Let_def)
       (simp add: js_def)
qed

section \<open>The claims\<close>

text \<open>
  C1. The claim: for every text and every positive \<open>maxChunkSize\<close> N, every chunk returned
  by \<open>chunkTextForSpeech\<close> has at most N characters, unless a single unbreakable token is
  itself longer than N. The code searches for a terminator with
  \<open>lastIndexOf(c, chunkEnd)\<close>, which also finds the character at index \<open>chunkEnd\<close>,
  one past the window, and then cuts at \<open>bestBreak + 1\<close>: for the text
  \<open>a a .b b b\<close> and N = 4 the first chunk has five characters, although every token has
  at most two and the window holds a space in its back half. (Lemma
  \<open>first_chunk_overflow\<close> shows the same for every N, 32000 included, whenever the
  character at index N is a terminator; lemma \<open>chunk_length_le_Suc\<close> bounds every chunk
  by N + 1.)
\<close>

theorem chunk_exceeds_max:
  "chunkTextForSpeech (js ''a a .b b b'') 4 = Some [js ''a a .'', js ''b b'', js ''b'']
   \<and> length (js ''a a .'') = 5"
  by code_simp




text \<open>
  C3. After \<open>stopReading\<close>, from any state, \<open>currentPosition\<close> is 0, both flags are
  false, the chunk list is empty and both cursors are 0, and one cancel has been issued. A
  timer left over from before the stop does nothing. A stale \<open>end\<close> callback followed by
  its timer speaks no further chunk and leaves the session and the empty chunk list as
  they are: the timer finds the chunked-playback flag false. (The stale handler itself
  still adds to its two counters before the timer is set, see
  \<open>stale_onend_moves_cursors\<close>; what the flag gates is the dispatch of the next chunk.)
\<close>

theorem stopReading_resets:
  "currentPosition (session (stopReading now h)) = 0
   \<and> \<not> isPlaying (session (stopReading now h))
   \<and> \<not> isPaused (session (stopReading now h))
   \<and> chunksRef (stopReading now h) = []
   \<and> currentChunkIndexRef (stopReading now h) = 0
   \<and> accumulatedCharactersRef (stopReading now h) = 0
   \<and> synthCalls (stopReading now h) = synthCalls h @ [Cancel]
   \<and> chunkTimer (stopReading now h) = stopReading now h
   \<and> chunkTimer (onend chunk (stopReading now h)) = onend chunk (stopReading now h)
   \<and> session (chunkTimer (onend chunk (stopReading now h))) = session (stopReading now h)
   \<and> synthCalls (chunkTimer (onend chunk (stopReading now h))) = synthCalls (stopReading now h)
   \<and> chunksRef (chunkTimer (onend chunk (stopReading now h))) = []"
  by (simp add: stopReading_def chunkTimer_def onend_def)

text \<open>
  C4, as stated, fails: \<open>startReading\<close> does not check \<open>fromPosition\<close> against the
  content. Started on \<open>abc\<close> at position 5, the session shows position 5 and, when the
  (empty) utterance has ended, position 3.
\<close>

theorem position_decreases:
  "map_option (observedPositions [[]]) (startReading (js ''abc'') 5 0 initialHook) = Some [5, 3]"
  by (simp add: observedPositions_def startReading_def initialHook_def sliceFrom_def
      chunkTextForSpeech_short speakNextChunk_def onend_def chunkTimer_def js_def Let_def)

text \<open>
  C4, amended. Let the content be non-empty and \<open>fromPosition\<close> at most its length, and
  let the engine deliver, for each chunk, word-boundary events whose \<open>charIndex\<close> values
  do not decrease and do not exceed the chunk's length. Then \<open>startReading\<close> returns, and
  the values taken by \<open>currentPosition\<close> from then on until the chunk list is exhausted
  never decrease, start at or above \<open>fromPosition\<close>, and end at \<open>totalCharacters\<close>, the
  length of the content. (Without the condition on the events the position follows them
  down, see \<open>position_follows_events\<close>.)
\<close>

theorem position_monotone:
  assumes "content' \<noteq> []" and "fromPosition \<le> int (length content')"
  shows "\<exists>h1. startReading content' fromPosition now h = Some h1
           \<and> fromPosition \<le> currentPosition (session h1)
           \<and> totalCharacters (session h1) = int (length content')
           \<and> (\<forall>script. boundaryScriptOk script (chunksRef h1) \<longrightarrow>
                  sorted (observedPositions script h1)
                  \<and> last (observedPositions script h1) = int (length content'))"
proof -
  obtain chunks where c: "chunkTextForSpeech (sliceFrom content' fromPosition) 32000 = Some chunks"
    and len: "sum_list (map length chunks) \<le> length (sliceFrom content' fromPosition)"
    using chunkTextForSpeech_default by blast
  define h0 where "h0 = h\<lparr>isStoppingRef := False, lastCancelAtRef := now,
                 synthCalls := synthCalls h @ [Cancel],
                 chunksRef := chunks, currentChunkIndexRef := 0,
                 accumulatedCharactersRef := fromPosition, isChunkedPlaybackRef := True,
                 session := (session h)\<lparr>content := content', isPlaying := True,
                             isPaused := False, totalCharacters := int (length content'),
                             currentPosition := fromPosition\<rparr>\<rparr>"
  define h1 where "h1 = speakNextChunk h0"
  have sr: "startReading content' fromPosition now h = Some h1"
    using startReading_started[OF assms(1) c] by (simp add: h1_def h0_def)
  have tot: "fromPosition + int (sum_list (map length chunks)) \<le> int (length content')"
    using sliceFrom_length[OF assms(2)] len by linarith
  show ?thesis
  proof (cases "chunks = []")
    case True
    then have f: "currentPosition (session h1) = int (length content')"
        "totalCharacters (session h1) = int (length content')" "chunksRef h1 = []"
      by (simp_all add: h1_def h0_def speakNextChunk_def)
    have "\<forall>script. boundaryScriptOk script (chunksRef h1) \<longrightarrow>
                  sorted (observedPositions script h1)
                  \<and> last (observedPositions script h1) = int (length content')"
      using f by (simp add: boundaryScriptOk_def observedPositions_def)
    then show ?thesis using sr f assms(2) by simp
  next
    case False
    then have f: "currentPosition (session h1) = fromPosition"
        "totalCharacters (session h1) = int (length content')" "chunksRef h1 = chunks"
        "currentChunkIndexRef h1 = 0" "accumulatedCharactersRef h1 = fromPosition"
        "isChunkedPlaybackRef h1"
        "\<exists>u. utteranceRef h1 = Some u \<and> utterText u = chunks ! 0"
      by (simp_all add: h1_def h0_def speakNextChunk_def Let_def)
    have mp: "midPlayback h1"
      unfolding midPlayback_def using f False tot by auto
    have "sorted (observedPositions script h1)
            \<and> last (observedPositions script h1) = int (length content')"
      if "boundaryScriptOk script (chunksRef h1)" for script
    proof -
      from that have "boundaryScriptOk script (drop (currentChunkIndexRef h1) (chunksRef h1))"
        using f by simp
      from playback_monotone[OF mp this] show ?thesis
        using f(2) by (simp add: observedPositions_def)
    qed
    then show ?thesis using sr f by simp
  qed
qed

text \<open>C4, amended, at the content \<open>abc def\<close> from position 0 with boundaries at 0 and 4.\<close>

theorem position_monotone_witness:
  "js ''abc def'' \<noteq> [] \<and> (0::int) \<le> int (length (js ''abc def''))
   \<and> (\<exists>h1. startReading (js ''abc def'') 0 0 initialHook = Some h1
          \<and> boundaryScriptOk [[0, 4]] (chunksRef h1)
          \<and> sorted (observedPositions [[0, 4]] h1)
          \<and> last (observedPositions [[0, 4]] h1) = int (length (js ''abc def'')))"
proof -
  have c: "js ''abc def'' \<noteq> []" by (simp add: js_def)
  have f: "(0::int) \<le> int (length (js ''abc def''))" by simp
  from position_monotone[OF c f, of 0 initialHook] obtain h1 where
    h1: "startReading (js ''abc def'') 0 0 initialHook = Some h1"
        "\<forall>script. boundaryScriptOk script (chunksRef h1) \<longrightarrow>
                  sorted (observedPositions script h1)
                  \<and> last (observedPositions script h1) = int (length (js ''abc def''))"
    by blast
  have "chunksRef h1 = [js ''abc def'']"
    using h1(1)
    by (auto simp: startReading_def sliceFrom_def chunkTextForSpeech_short speakNextChunk_def
        js_def Let_def)
  then have "boundaryScriptOk [[0, 4]] (chunksRef h1)"
    by (simp add: boundaryScriptOk_def js_def)
  with h1 c f show ?thesis by blast
qed

text \<open>
  C5. The claim: on every strategy, a page whose extracted text is shorter than five
  characters goes through OCR and, when OCR yields text, is emitted under the marker
  \<open>--- Page N (OCR) ---\<close>. The direct path does that; \<open>processPdfPageRange\<close> of the
  chunked processor and the worker do not call OCR at all. For a page with the text
  \<open>ab\<close> on which OCR would recognise \<open>Recovered text\<close>, the direct path emits the OCR
  marker and the recovered text, the chunked processor and the worker emit the plain
  marker and \<open>ab\<close>.
\<close>

theorem ocr_only_on_direct_path:
  "directPage 1 scannedPage = js ''\<newline>\<newline>--- Page 1 (OCR) ---\<newline>Recovered text''
   \<and> processPdfPageRange [scannedPage] 1 1 = js ''\<newline>\<newline>--- Page 1 ---\<newline>ab''
   \<and> workerContent (processPdfInWorker [scannedPage] 3 500) = js ''\<newline>\<newline>--- Page 1 ---\<newline>ab''"
  by code_simp

text \<open>
  C6. A file whose size exceeds the hard cap of 500 MB is rejected by
  \<open>processPdfInChunks\<close> with the message \<open>File too large. Maximum size is 500MB\<close>,
  before the file is read, the document loaded or any page accessed.
\<close>

theorem oversized_rejected:
  assumes "fileSize file > MAX_FILE_SIZE"
  shows "processPdfInChunks platform file
           = (Inl (js ''File too large. Maximum size is 500MB''), [])"
proof -
  have "MAX_FILE_SIZE div (1024 * 1024) = 500" by (simp add: MAX_FILE_SIZE_def)
  then have "js ''File too large. Maximum size is '' @ showNat (MAX_FILE_SIZE div (1024 * 1024)) @ js ''MB''
        = js ''File too large. Maximum size is 500MB''"
    by (simp add: showNat_500 js_def)
  then show ?thesis using assms by (simp add: processPdfInChunks_def)
qed

text \<open>C6, at a file reported as 600 MB.\<close>

theorem oversized_rejected_witness:
  "fileSize (pdfFile (600 * 1024 * 1024)) > MAX_FILE_SIZE
   \<and> processPdfInChunks examplePlatform (pdfFile (600 * 1024 * 1024))
       = (Inl (js ''File too large. Maximum size is 500MB''), [])"
proof -
  have a: "fileSize (pdfFile (600 * 1024 * 1024)) > MAX_FILE_SIZE"
    by (simp add: pdfFile_def MAX_FILE_SIZE_def)
  from oversized_rejected[OF a, of examplePlatform] a show ?thesis by simp
qed

text \<open>
  C7. The claim: after one successful extraction of a cacheable file, a second extraction
  of the same file is a cache hit that processes no page. The worker, chunked and recovery
  paths store their result in the cache; the direct path returns without doing so, and it
  is the path of every file from 1 MB to 5 MB. A 2 MB file is extracted successfully, the
  cache holds no entry afterwards, and the second extraction misses again, loads the
  document again and processes page 1 again. (A 6 MB file goes through the worker and is
  cached: \<open>worker_extraction_cached\<close>.)
\<close>

theorem direct_extraction_not_cached:
  "extractFromPDF examplePlatform 1000 (pdfFile (2 * 1024 * 1024)) emptyCache
     = (Inr (fileSource (pdfFile (2 * 1024 * 1024)) (js ''--- Page 1 ---\<newline>Hello world'')),
        \<lparr>cacheMap = [], hits = 0, misses = 1\<rparr>,
        [ReadBytes, GetDocument, GetPage 1])
   \<and> extractFromPDF examplePlatform 2000 (pdfFile (2 * 1024 * 1024))
         \<lparr>cacheMap = [], hits = 0, misses = 1\<rparr>
     = (Inr (fileSource (pdfFile (2 * 1024 * 1024)) (js ''--- Page 1 ---\<newline>Hello world'')),
        \<lparr>cacheMap = [], hits = 0, misses = 2\<rparr>,
        [ReadBytes, GetDocument, GetPage 1])"
proof -
  let ?f = "pdfFile (2 * 1024 * 1024)"
  have sz: "1024 * 1024 \<le> fileSize ?f" "fileSize ?f \<le> 5 * (1024 * 1024)"
    by (simp_all add: pdfFile_def)
  have doc: "getDocument examplePlatform (fileBytes ?f) = Inr helloPdf"
    by (simp add: examplePlatform_def)
  have h: "sha256Hex examplePlatform (fileBytes ?f) = Some (js ''0123456789abcdef0123456789abcdef'')"
    by (simp add: examplePlatform_def)
  have m: "cacheGet examplePlatform now ?f \<lparr>cacheMap = [], hits = 0, misses = k\<rparr>
             = (None, \<lparr>cacheMap = [], hits = 0, misses = k + 1\<rparr>)" for now k
    using cacheGet_miss[OF h, of "\<lparr>cacheMap = [], hits = 0, misses = k\<rparr>" now] by simp
  have pages: "map GetPage [1..<length helloPdf + 1] = [GetPage 1]"
    by (simp add: helloPdf_def)
  show ?thesis
    using small_file_direct[OF sz doc m[of 1000 0], unfolded directPages_hello pages]
      small_file_direct[OF sz doc m[of 2000 1], unfolded directPages_hello pages]
    by (simp add: emptyCache_def)
qed

text \<open>
  C8, as stated, fails when the change clears the voice: the voice selector's "Default"
  option calls \<open>updateSettings\<close> with \<open>voice\<close> undefined; the voice-loading effect
  then selects the English voice again, the settings change a second time, and playback is
  restarted twice by the one call.
\<close>

theorem settings_pileup:
  "map_option synthCalls (updateSettings clearVoice [enVoice] 1 playingHook)
     = Some [Cancel, Speak (helloUtterance (Some enVoice)),
             Cancel, Cancel, Speak (helloUtterance None),
             Cancel, Cancel, Speak (helloUtterance (Some enVoice))]"
  by (simp add: updateSettings_def commitSettings_def settingsEffect_def startReading_def
      mergeSettings_def clearVoice_def playingHook_def settingsDepsChanged_def englishVoice_def
      startsWith_def enVoice_def sliceFrom_def chunkTextForSpeech_short speakNextChunk_def
      helloUtterance_def js_def Let_def)

text \<open>
  C8, amended. Let the hook be playing (not paused) some non-empty content, and let one
  \<open>updateSettings\<close> call change the rate, the pitch, the volume or the voice, leaving a
  voice selected (or the platform has no English voice). Then exactly one restart
  happens: the effect cancels once and calls \<open>startReading\<close> once, at the position the
  session had before the change, which cancels and speaks the first chunk of the content
  from that position with the new settings. When that remaining text has a chunk to
  speak, the session is still playing and not paused, at the same position.
\<close>

theorem settings_single_restart:
  assumes "isPlaying (session h)" and "\<not> isPaused (session h)"
    and "content (session h) \<noteq> []"
    and "settingsDepsChanged (settings h) (mergeSettings (settings h) p)"
    and "voice (mergeSettings (settings h) p) \<noteq> None \<or> englishVoice voices = None"
    and "chunkTextForSpeech (sliceFrom (content (session h)) (currentPosition (session h))) 32000
           = Some (chunk # rest)"
  shows "\<exists>h' u. updateSettings p voices now h = Some h'
           \<and> synthCalls h' = synthCalls h @ [Cancel, Cancel, Speak u]
           \<and> utterText u = chunk
           \<and> utterRate u = rate (mergeSettings (settings h) p)
           \<and> utterPitch u = pitch (mergeSettings (settings h) p)
           \<and> utterVolume u = volume (mergeSettings (settings h) p)
           \<and> utterVoice u = voice (mergeSettings (settings h) p)
           \<and> settings h' = mergeSettings (settings h) p
           \<and> isPlaying (session h') \<and> \<not> isPaused (session h')
           \<and> content (session h') = content (session h)
           \<and> currentPosition (session h') = currentPosition (session h)
           \<and> accumulatedCharactersRef h' = currentPosition (session h)
           \<and> chunksRef h' = chunk # rest \<and> currentChunkIndexRef h' = 0"
proof -
  let ?cur = "mergeSettings (settings h) p"
  from assms(5) consider (defined) "voice ?cur \<noteq> None" | (noEnglish) "englishVoice voices = None"
    by auto
  then show ?thesis
  proof cases
    case defined
    then obtain v where "voice ?cur = Some v" by auto
    then show ?thesis
      unfolding updateSettings_def commitSettings_def
      using assms(1-4,6)
      by (simp add: Let_def settingsEffect_def startReading_def speakNextChunk_def)
  next
    case noEnglish
    then show ?thesis
      unfolding updateSettings_def commitSettings_def
      using assms(1-4,6)
      by (simp add: Let_def settingsEffect_def startReading_def speakNextChunk_def)
  qed
qed

text \<open>C8, amended, at a hook playing \<open>Hello world\<close> whose rate is set to 2.\<close>

theorem settings_single_restart_witness:
  "isPlaying (session playingHook) \<and> \<not> isPaused (session playingHook)
   \<and> content (session playingHook) \<noteq> []
   \<and> settingsDepsChanged (settings playingHook) (mergeSettings (settings playingHook) doubleRate)
   \<and> voice (mergeSettings (settings playingHook) doubleRate) = Some enVoice
   \<and> chunkTextForSpeech (sliceFrom (content (session playingHook))
          (currentPosition (session playingHook))) 32000 = Some (js ''Hello world'' # [])
   \<and> (\<exists>h' u. updateSettings doubleRate [enVoice] 7 playingHook = Some h'
           \<and> synthCalls h' = synthCalls playingHook @ [Cancel, Cancel, Speak u]
           \<and> utterText u = js ''Hello world'' \<and> utterRate u = 2
           \<and> isPlaying (session h') \<and> \<not> isPaused (session h')
           \<and> currentPosition (session h') = 0)"
proof -
  have a: "isPlaying (session playingHook)" "\<not> isPaused (session playingHook)"
    "content (session playingHook) \<noteq> []"
    by (simp_all add: playingHook_def js_def)
  have b: "settingsDepsChanged (settings playingHook) (mergeSettings (settings playingHook) doubleRate)"
    by (simp add: settingsDepsChanged_def mergeSettings_def doubleRate_def playingHook_def)
  have v: "voice (mergeSettings (settings playingHook) doubleRate) = Some enVoice"
    by (simp add: mergeSettings_def doubleRate_def playingHook_def)
  then have c: "voice (mergeSettings (settings playingHook) doubleRate) \<noteq> None
        \<or> englishVoice [enVoice] = None"
    by simp
  have d: "chunkTextForSpeech (sliceFrom (content (session playingHook))
          (currentPosition (session playingHook))) 32000 = Some (js ''Hello world'' # [])"
    by (simp add: playingHook_def sliceFrom_def chunkTextForSpeech_short js_def)
  have r: "rate (mergeSettings (settings playingHook) doubleRate) = 2"
    "currentPosition (session playingHook) = 0"
    by (simp_all add: mergeSettings_def doubleRate_def playingHook_def)
  from settings_single_restart[OF a b c d, of 7] r a b v d show ?thesis
    by auto
qed

text \<open>
  C9. Every operation of the hook and every callback and timer returns, and none makes
  \<open>isPlaying\<close> and \<open>isPaused\<close> both true: if they are not both true before a step,
  they are not both true after it.
\<close>

theorem flags_mutually_exclusive:
  "flagsExclusive h \<Longrightarrow> \<exists>h'. step event now h = Some h' \<and> flagsExclusive h'"
  by (rule step_flags)

text \<open>C9, at the playing hook and \<open>pauseReading\<close>.\<close>

theorem flags_mutually_exclusive_witness:
  "flagsExclusive playingHook
   \<and> (\<exists>h'. step PauseReading 5 playingHook = Some h' \<and> flagsExclusive h')"
proof -
  have a: "flagsExclusive playingHook" by (simp add: flagsExclusive_def playingHook_def)
  from flags_mutually_exclusive[OF a, of PauseReading 5] a show ?thesis by simp
qed

text \<open>
  C10. \<open>startReading\<close> with the empty string returns at once and leaves the whole state
  as it is: no session field, no ref and no call to the engine.
\<close>

theorem startReading_empty:
  "startReading [] fromPosition now h = Some h"
  by (simp add: startReading_def)

end
